theory Spec2Isabelle
  imports Complex_Main "HOL-Library.AList"
begin

section \<open>JavaScript values and objects\<close>

text \<open>
  The values the two programs store in their tables: what \<open>JSON.parse\<close> yields for a
  field (a string, a number, a boolean, \<open>null\<close>), \<open>undefined\<close> for a field that is
  missing, and \<open>JBuiltin\<close> for the members every object literal inherits from
  \<open>Object.prototype\<close> (functions, and the prototype object itself under
  \<open>__proto__\<close>). Numbers are the integers: nothing below does arithmetic on a stored
  value, only the truth test \<open>!v\<close>.
\<close>

datatype jsval = JUndefined | JNull | JBool bool | JNum int | JStr string | JBuiltin string

fun truthy :: "jsval \<Rightarrow> bool" where
  "truthy JUndefined = False"
| "truthy JNull = False"
| "truthy (JBool b) = b"
| "truthy (JNum n) = (if n = 0 then False else True)"
| "truthy (JStr s) = (if s = [] then False else True)"
| "truthy (JBuiltin f) = True"

text \<open>
  An object created by the literal \<open>{}\<close>: its own properties in creation order, and
  whether its prototype is still \<open>Object.prototype\<close> (\<open>proto\<close>). \<open>Object.keys\<close>
  lists own properties only; JavaScript would list names that are array indices first,
  which no statement below depends on.
\<close>

record jsobj =
  props :: "(string \<times> jsval) list"
  proto :: bool

definition empty_obj :: jsobj where
  "empty_obj = \<lparr>props = [], proto = True\<rparr>"

definition Object_prototype :: "string list" where
  "Object_prototype =
     [''constructor'', ''__defineGetter__'', ''__defineSetter__'', ''hasOwnProperty'',
      ''__lookupGetter__'', ''__lookupSetter__'', ''isPrototypeOf'',
      ''propertyIsEnumerable'', ''toString'', ''valueOf'', ''__proto__'',
      ''toLocaleString'']"

text \<open>\<open>obj[k]\<close>: the own property, else the inherited member, else \<open>undefined\<close>.\<close>

definition obj_get :: "jsobj \<Rightarrow> string \<Rightarrow> jsval" where
  "obj_get obj k =
     (case map_of (props obj) k of
        Some v \<Rightarrow> v
      | None \<Rightarrow> if proto obj \<and> List.member Object_prototype k then JBuiltin k else JUndefined)"

text \<open>
  \<open>obj[k] = v\<close>. Under the name \<open>__proto__\<close> the assignment reaches the setter
  inherited from \<open>Object.prototype\<close>: it creates no own property, \<open>null\<close> removes the
  prototype and a primitive is ignored. (A \<open>JBuiltin\<close> is never assigned by the code
  modelled here.)
\<close>

definition obj_set :: "jsobj \<Rightarrow> string \<Rightarrow> jsval \<Rightarrow> jsobj" where
  "obj_set obj k v =
     (if k = ''__proto__'' \<and> proto obj
      then (if v = JNull then obj\<lparr>proto := False\<rparr> else obj)
      else obj\<lparr>props := AList.update k v (props obj)\<rparr>)"

definition obj_keys :: "jsobj \<Rightarrow> string list" where
  "obj_keys obj = map fst (props obj)"

section \<open>The mock identity API (SyncAPI/server.js)\<close>

record token =
  expires_in :: int
  access_token :: int
  token_type :: string

record user =
  username :: jsval
  surname :: jsval
  last_modified :: int

text \<open>
  \<open>tokens\<close> is an object keyed by \<open>token_type + ' ' + access_token\<close>; \<open>users\<close> is an
  array.
\<close>

record server =
  tokens :: "(string \<times> token) list"
  users :: "user list"

definition expiration :: int where
  "expiration = 900000"

text \<open>
  The sweep registered with \<open>setInterval\<close>: \<open>for (let i in tokens)\<close> visits the keys
  the table has when the loop starts, skipping one that was deleted meanwhile. The loop
  is synchronous; \<open>now\<close> is the reading of \<open>Date.now()\<close> during it.
\<close>

fun sweep_loop :: "int \<Rightarrow> string list \<Rightarrow> (string \<times> token) list \<Rightarrow> (string \<times> token) list" where
  "sweep_loop now [] tbl = tbl"
| "sweep_loop now (i # rest) tbl =
     (case map_of tbl i of
        None \<Rightarrow> sweep_loop now rest tbl
      | Some t \<Rightarrow>
          if expires_in t > now then sweep_loop now rest (AList.delete i tbl)
          else sweep_loop now rest tbl)"

definition sweep :: "int \<Rightarrow> server \<Rightarrow> server" where
  "sweep now srv = srv\<lparr>tokens := sweep_loop now (map fst (tokens srv)) (tokens srv)\<rparr>"

text \<open>
  A request as the handlers read it: \<open>req.get('Authorization')\<close> (\<open>undefined\<close> when
  the header is absent) and the two fields of \<open>req.body\<close> the POST handler looks at.
\<close>

record request =
  authorization :: "string option"
  body_username :: jsval
  body_surname :: jsval

text \<open>\<open>tokens[token]\<close> with \<open>token\<close> undefined reads the property named "undefined".\<close>

definition header_key :: "string option \<Rightarrow> string" where
  "header_key h = (case h of None \<Rightarrow> ''undefined'' | Some s \<Rightarrow> s)"

datatype payload =
    SentToken token
  | SentUsers "user list"
  | SentUser user
  | SentText string
  | SentError string

text \<open>
  The response object of Express (a library, not part of this repository). Its
  \<open>status\<close> member is a method, \<open>res.status(code)\<close>, which would store the code in
  \<open>statusCode\<close>; \<open>statusCode\<close> is what \<open>res.send\<close> writes on the status line, and
  it is 200 on a fresh response. The handlers never call the method: they assign to the
  property, \<open>res.status = 201\<close>, which replaces the method on this object by a number.
\<close>

datatype status_member = StatusMethod | StatusValue nat

record response =
  statusCode :: nat
  status :: status_member
  sent :: "payload option"

definition fresh_response :: response where
  "fresh_response = \<lparr>statusCode = 200, status = StatusMethod, sent = None\<rparr>"

definition send :: "payload \<Rightarrow> response \<Rightarrow> response" where
  "send p res = res\<lparr>sent := Some p\<rparr>"

definition unauthorized :: "response \<Rightarrow> response" where
  "unauthorized res = send (SentError ''Unauthorized!'') (res\<lparr>status := StatusValue 401\<rparr>)"

text \<open>The decimal digits of a number, as string concatenation writes them.\<close>

fun decimal :: "nat \<Rightarrow> string" where
  "decimal n =
     (if n < 10 then [''0123456789'' ! n]
      else decimal (n div 10) @ [''0123456789'' ! (n mod 10)])"

declare decimal.simps [simp del]

text \<open>
  \<open>app.get('/token')\<close>; \<open>rnd\<close> is the six-digit number drawn with \<open>Math.random\<close>.
\<close>

definition get_token :: "int \<Rightarrow> int \<Rightarrow> request \<Rightarrow> server \<Rightarrow> response \<Rightarrow> server \<times> response" where
  "get_token now rnd req srv res =
     (if authorization req = Some ''Basic base64'' then
        (let tok = \<lparr>expires_in = now + expiration, access_token = rnd, token_type = ''Bearer''\<rparr>
         in (srv\<lparr>tokens := AList.update (''Bearer '' @ decimal (nat rnd)) tok (tokens srv)\<rparr>,
             send (SentToken tok) (res\<lparr>status := StatusValue 200\<rparr>)))
      else (srv, unauthorized res))"

text \<open>
  \<open>app.get('/users')\<close> and \<open>app.post('/users')\<close>. A name that \<open>tokens\<close> only
  inherits (\<open>tokens['toString']\<close>) passes the first test and fails the second, its
  \<open>expires_in\<close> being undefined; it ends in the same branch as an unknown token, so
  the table is read with \<open>map_of\<close>.
\<close>

definition get_users :: "int \<Rightarrow> request \<Rightarrow> server \<Rightarrow> response \<Rightarrow> server \<times> response" where
  "get_users now req srv res =
     (case map_of (tokens srv) (header_key (authorization req)) of
        Some t \<Rightarrow>
          if expires_in t > now
          then (srv, send (SentUsers (users srv)) (res\<lparr>status := StatusValue 200\<rparr>))
          else (srv, unauthorized res)
      | None \<Rightarrow> (srv, unauthorized res))"

definition missing_fields :: "request \<Rightarrow> string" where
  "missing_fields req =
     ''Missing fields:''
       @ (if truthy (body_username req) then [] else '' username '')
       @ (if truthy (body_surname req) then [] else '' surname '')"

definition post_users :: "int \<Rightarrow> request \<Rightarrow> server \<Rightarrow> response \<Rightarrow> server \<times> response" where
  "post_users now req srv res =
     (case map_of (tokens srv) (header_key (authorization req)) of
        Some t \<Rightarrow>
          if expires_in t > now then
            (if truthy (body_username req) \<and> truthy (body_surname req) then
               (let newUser = \<lparr>username = body_username req, surname = body_surname req,
                                last_modified = now\<rparr>
                in (srv\<lparr>users := users srv @ [newUser]\<rparr>,
                    send (SentUser newUser) (res\<lparr>status := StatusValue 201\<rparr>)))
             else (srv, send (SentText (missing_fields req)) (res\<lparr>status := StatusValue 400\<rparr>)))
          else (srv, unauthorized res)
      | None \<Rightarrow> (srv, unauthorized res))"

section \<open>Promises, replies and the console\<close>

text \<open>
  What a callback of the \<open>request\<close> library receives: an error and no response, or a
  response with its status code and its body. The body of a token reply is a token:
  \<open>createToken\<close> sends the one header \<open>server.js\<close> accepts, and is answered with a
  token. The body of a \<open>/users\<close> reply is a \<open>users_body\<close>, defined with the
  datastore read, which covers what \<open>JSON.parse\<close> and the loop over the parsed value
  can meet.
\<close>

datatype 'b reply = NoResponse | Status nat 'b

datatype failure =
    NoReply
  | BadReply nat
  | BindError string
  | SearchError string
  | StreamError string
  | TypeError
  | SyntaxError

text \<open>
  A promise is settled at most once. A function below returns the state its promise is
  left in once every callback that holds its \<open>resolve\<close> or \<open>reject\<close> has run, so
  \<open>Pending\<close> as a result means that the promise is never settled.
\<close>

datatype 'a promise = Pending | Resolved 'a | Rejected failure

definition resolve :: "'a \<Rightarrow> 'a promise \<Rightarrow> 'a promise" where
  "resolve v p = (case p of Pending \<Rightarrow> Resolved v | Resolved w \<Rightarrow> Resolved w | Rejected e \<Rightarrow> Rejected e)"

definition reject :: "failure \<Rightarrow> 'a promise \<Rightarrow> 'a promise" where
  "reject e p = (case p of Pending \<Rightarrow> Rejected e | Resolved w \<Rightarrow> Resolved w | Rejected d \<Rightarrow> Rejected d)"

fun is_resolved :: "'a promise \<Rightarrow> bool" where
  "is_resolved (Resolved v) = True"
| "is_resolved p = False"

fun is_rejected :: "'a promise \<Rightarrow> bool" where
  "is_rejected (Rejected e) = True"
| "is_rejected p = False"

text \<open>
  Of the console output the model keeps the lines written on failure paths and the
  per-key lines of \<open>syncUsers\<close>; \<open>Shown e\<close> is \<open>console.log(err)\<close>, and
  \<open>Thrown e\<close> is the report Node writes for an exception that no handler caught, after
  which the process ends. Progress lines ("Getting token", "Searching", ...) are left
  out.
\<close>

datatype logline = Line string | Shown failure | Thrown failure

section \<open>The credential cache (UserSync/token.js, and its copy in promises.js)\<close>

text \<open>\<open>JSON.parse(body)\<close> of the token reply, with \<open>token.created = Date.now()\<close> added.\<close>

record credential = token +
  created :: int

text \<open>
  The state of the synchronisation process: the module variable \<open>auth\<close>, the number
  of \<open>GET /token\<close> requests sent so far, the creation requests sent whose callback has
  not run yet, and the console.
\<close>

record creation =
  cr_authorization :: string
  cr_username :: string
  cr_surname :: jsval

record client =
  auth :: "credential option"
  token_requests :: nat
  in_flight :: "creation list"
  log :: "logline list"

text \<open>
  \<open>createToken\<close>, from the reply to its request on: \<open>stamp\<close> is \<open>Date.now()\<close> in the
  callback.
\<close>

definition createToken :: "int \<Rightarrow> token reply \<Rightarrow> credential promise" where
  "createToken stamp r =
     (case r of
        NoResponse \<Rightarrow> Rejected NoReply
      | Status code tok \<Rightarrow>
          if code = 200
          then Resolved \<lparr>expires_in = expires_in tok, access_token = access_token tok,
                         token_type = token_type tok, created = stamp\<rparr>
          else Rejected (BadReply code))"

text \<open>
  \<open>time = +Math.abs((auth.created-Date.now())/1000)\<close> and the test
  \<open>!auth||time>=auth.expires_in\<close>. The quotient is a rational number here; for
  timestamps in JavaScript's exact integer range the double the program computes
  compares with the integer \<open>expires_in\<close> the same way.
\<close>

definition time :: "int \<Rightarrow> credential \<Rightarrow> rat" where
  "time now a = \<bar>(of_int (created a) - of_int now) / 1000\<bar>"

definition stale :: "int \<Rightarrow> client \<Rightarrow> bool" where
  "stale now c = (case auth c of None \<Rightarrow> True | Some a \<Rightarrow> time now a \<ge> of_int (expires_in a))"

text \<open>
  \<open>getToken\<close> runs in two turns of the event loop. \<open>getToken_start\<close> is the executor
  of its promise: it runs when \<open>getToken()\<close> is called and either resolves at once or
  calls \<open>createToken\<close>, which sends the request. \<open>getToken_reply\<close> is what runs when
  the reply to that request arrives: the \<open>then\<close> callback stores and resolves, the
  \<open>catch\<close> callback writes a line and calls neither \<open>resolve\<close> nor \<open>reject\<close>.
\<close>

definition getToken_start :: "int \<Rightarrow> client \<Rightarrow> client \<times> credential promise" where
  "getToken_start now c =
     (case auth c of
        None \<Rightarrow> (c\<lparr>token_requests := token_requests c + 1\<rparr>, Pending)
      | Some a \<Rightarrow>
          if time now a \<ge> of_int (expires_in a)
          then (c\<lparr>token_requests := token_requests c + 1\<rparr>, Pending)
          else (c, Resolved a))"

definition getToken_reply :: "int \<Rightarrow> token reply \<Rightarrow> client \<Rightarrow> client \<times> credential promise" where
  "getToken_reply stamp r c =
     (case createToken stamp r of
        Resolved tok \<Rightarrow> (c\<lparr>auth := Some tok\<rparr>, Resolved tok)
      | Rejected e \<Rightarrow>
          (c\<lparr>log := log c @ [Line ''Failed to get token!'', Line ''Failed to create token!'']\<rparr>,
           Pending)
      | Pending \<Rightarrow> (c, Pending))"

text \<open>One call of \<open>getToken\<close> with nothing else running in between.\<close>

definition getToken :: "int \<Rightarrow> int \<times> token reply \<Rightarrow> client \<Rightarrow> client \<times> credential promise" where
  "getToken now rep c =
     (case getToken_start now c of
        (c', Pending) \<Rightarrow> getToken_reply (fst rep) (snd rep) c'
      | (c', Resolved a) \<Rightarrow> (c', Resolved a)
      | (c', Rejected e) \<Rightarrow> (c', Rejected e))"

text \<open>
  Calls of \<open>getToken\<close> made one after the other (at the given readings of the clock)
  before the reply to any of their requests has arrived.
\<close>

fun getToken_calls :: "int list \<Rightarrow> client \<Rightarrow> client \<times> credential promise list" where
  "getToken_calls [] c = (c, [])"
| "getToken_calls (now # rest) c =
     (case getToken_start now c of
        (c', p) \<Rightarrow> (case getToken_calls rest c' of (c'', ps) \<Rightarrow> (c'', p # ps)))"

section \<open>The two readers (UserSync/promises.js)\<close>

text \<open>
  One element of the array \<open>GET /users\<close> answers with. \<open>Listed k v\<close> is an element
  whose \<open>username\<close> turns into the property name \<open>k\<close> and whose \<open>surname\<close> is
  \<open>v\<close> (an element without the fields is \<open>Listed ''undefined'' JUndefined\<close>).
  \<open>NoObject\<close> is the element \<open>null\<close>, of which no property can be read.
\<close>

datatype listed_user = NoObject | Listed string jsval

text \<open>
  The body of a \<open>/users\<close> reply, as \<open>JSON.parse(body)\<close> and \<open>for (let user of
  jsonBody)\<close> take it: text that is not JSON, on which \<open>JSON.parse\<close> throws; a value
  that cannot be iterated (an object such as \<open>{error_message: 'Unauthorized!'}\<close>, a
  number, a boolean, \<open>null\<close>), on which the loop throws; or the elements the loop
  visits (a string is visited character by character, each an element without the
  fields). \<open>server.js\<close> answers a refusal with the object \<open>{error_message}\<close>, and,
  assigning \<open>res.status\<close> instead of calling it, with the status code 200.
\<close>

datatype users_body = Unparsable | NotIterable | UserArray "listed_user list"

text \<open>The loop \<open>for (let user of jsonBody)\<close>; \<open>null.username\<close> throws.\<close>

fun users_loop :: "listed_user list \<Rightarrow> jsobj \<Rightarrow> failure + jsobj" where
  "users_loop [] usersDB = Inr usersDB"
| "users_loop (NoObject # rest) usersDB = Inl TypeError"
| "users_loop (Listed k v # rest) usersDB = users_loop rest (obj_set usersDB k v)"

text \<open>
  What a read comes to: the state its promise is left in, or an exception thrown inside
  the callback of \<open>request\<close>. Such a callback runs in a turn of the event loop of its
  own, outside the executor and outside every \<open>then\<close>: no \<open>catch\<close> of the program
  receives the exception, and Node reports it and ends the process.
\<close>

datatype 'a reading = Promised "'a promise" | Uncaught failure

fun delivered :: "'a reading \<Rightarrow> bool" where
  "delivered (Promised (Resolved v)) = True"
| "delivered r = False"

definition getUsersDB ::
  "int \<Rightarrow> int \<times> token reply \<Rightarrow> users_body reply \<Rightarrow> client \<Rightarrow> client \<times> jsobj reading" where
  "getUsersDB now trep urep c =
     (case getToken now trep c of
        (c', Resolved tok) \<Rightarrow>
          (case urep of
             NoResponse \<Rightarrow>
               (c'\<lparr>log := log c' @ [Line ''Failed to get users from the DB!'']\<rparr>,
                Promised (Rejected NoReply))
           | Status code body \<Rightarrow>
               if code = 200 then
                 (case body of
                    Unparsable \<Rightarrow> (c', Uncaught SyntaxError)
                  | NotIterable \<Rightarrow> (c', Uncaught TypeError)
                  | UserArray jsonBody \<Rightarrow>
                      (case users_loop jsonBody empty_obj of
                         Inl e \<Rightarrow> (c', Uncaught e)
                       | Inr usersDB \<Rightarrow> (c', Promised (Resolved usersDB))))
               else (c'\<lparr>log := log c' @ [Line ''Failed to get users from the DB!'']\<rparr>,
                     Promised (Rejected (BadReply code))))
      | (c', Pending) \<Rightarrow> (c', Promised Pending)
      | (c', Rejected e) \<Rightarrow>
          (c'\<lparr>log := log c' @ [Line ''Failed to get token!'']\<rparr>, Promised Pending))"

text \<open>
  The directory as one read sees it: whether the bind and the search are refused, and
  the events the search then emits, in order. An entry carries \<open>entry.object.cn\<close> and
  \<open>entry.object.sn\<close>.
\<close>

datatype ldap_event = SearchEntry string jsval | Error string | End

record directory =
  bind_err :: "string option"
  search_err :: "string option"
  events :: "ldap_event list"

text \<open>
  The three handlers registered with \<open>res.on\<close>, run over the events; the state is the
  object \<open>usersLDAP\<close> and the promise of \<open>getUsersLDAP\<close>.
\<close>

fun search_events :: "ldap_event list \<Rightarrow> jsobj \<times> jsobj promise \<Rightarrow> jsobj \<times> jsobj promise" where
  "search_events [] s = s"
| "search_events (SearchEntry cn sn # rest) (usersLDAP, p) =
     search_events rest (obj_set usersLDAP cn sn, p)"
| "search_events (Error e # rest) (usersLDAP, p) =
     search_events rest (usersLDAP, reject (StreamError e) p)"
| "search_events (End # rest) (usersLDAP, p) =
     search_events rest (usersLDAP, resolve usersLDAP p)"

definition getUsersLDAP :: "directory \<Rightarrow> jsobj promise" where
  "getUsersLDAP d =
     (case bind_err d of
        Some e \<Rightarrow> Rejected (BindError e)
      | None \<Rightarrow>
          (case search_err d of
             Some e \<Rightarrow> Rejected (SearchError e)
           | None \<Rightarrow> snd (search_events (events d) (empty_obj, Pending))))"

section \<open>One reconciliation cycle (UserSync/promises.js)\<close>

text \<open>
  The callback given to \<open>Object.keys(usersLDAP).map\<close>, run over the keys.
  \<open>usersDB\<close> is \<open>values[0]\<close>, which is \<open>undefined\<close> (\<open>None\<close>) when the datastore
  read was rejected; reading a property of \<open>undefined\<close> throws, which ends the loop.
  The local counter \<open>count\<close> is written and never read, and is left out.
\<close>

fun keys_loop ::
  "string list \<Rightarrow> jsobj option \<Rightarrow> jsobj \<Rightarrow> credential \<Rightarrow> client \<Rightarrow> client \<times> failure option" where
  "keys_loop [] usersDB usersLDAP tok c = (c, None)"
| "keys_loop (objectKey # rest) usersDB usersLDAP tok c =
     (case usersDB of
        None \<Rightarrow> (c, Some TypeError)
      | Some db \<Rightarrow>
          if truthy (obj_get db objectKey)
          then keys_loop rest usersDB usersLDAP tok
                 (c\<lparr>log := log c @ [Line (objectKey @ '' already exists'')]\<rparr>)
          else keys_loop rest usersDB usersLDAP tok
                 (c\<lparr>log := log c @ [Line (objectKey @ '' exists only in LDAP'')],
                    in_flight := in_flight c @
                      [\<lparr>cr_authorization = ''Bearer '' @ decimal (nat (access_token tok)),
                        cr_username = objectKey,
                        cr_surname = obj_get usersLDAP objectKey\<rparr>]\<rparr>))"

text \<open>
  The function given to \<open>getToken().then\<close> inside \<open>syncUsers\<close>;
  \<open>Object.keys(undefined)\<close> throws.
\<close>

definition compare_lists ::
  "jsobj option \<times> jsobj option \<Rightarrow> credential \<Rightarrow> client \<Rightarrow> client \<times> failure option" where
  "compare_lists vals tok c =
     (case snd vals of
        None \<Rightarrow> (c, Some TypeError)
      | Some usersLDAP \<Rightarrow> keys_loop (obj_keys usersLDAP) (fst vals) usersLDAP tok c)"

text \<open>
  \<open>syncUsers\<close>: when the comparison has run through, \<open>resolve(true)\<close>; an exception
  thrown in it reaches the \<open>catch\<close> at the end, which writes a line and settles
  nothing. The requests sent stay in \<open>in_flight\<close>: their callbacks run in later turns
  of the event loop.
\<close>

definition syncUsers ::
  "int \<Rightarrow> int \<times> token reply \<Rightarrow> jsobj option \<times> jsobj option \<Rightarrow> client \<Rightarrow> client \<times> jsval promise" where
  "syncUsers now trep vals c =
     (case getToken now trep c of
        (c', Resolved tok) \<Rightarrow>
          (case compare_lists vals tok c' of
             (c'', None) \<Rightarrow> (c'', Resolved (JBool True))
           | (c'', Some e) \<Rightarrow> (c''\<lparr>log := log c'' @ [Line ''Failed to get token!'']\<rparr>, Pending))
      | (c', Pending) \<Rightarrow> (c', Pending)
      | (c', Rejected e) \<Rightarrow> (c'\<lparr>log := log c' @ [Line ''Failed to get token!'']\<rparr>, Pending))"

text \<open>The callback of one creation request: it writes to the console, nothing else.\<close>

definition creation_reply :: "creation \<Rightarrow> user reply \<Rightarrow> client \<Rightarrow> client" where
  "creation_reply cr r c =
     (let c' = c\<lparr>in_flight := remove1 cr (in_flight c)\<rparr>
      in case r of
           NoResponse \<Rightarrow> c'\<lparr>log := log c' @ [Line ''Error:'', Line ''Res:'']\<rparr>
         | Status code b \<Rightarrow>
             if code = 200
             then c'\<lparr>log := log c' @ [Line (''Added '' @ cr_username cr @ '' to DB'')]\<rparr>
             else c'\<lparr>log := log c' @ [Line ''Error:'', Line ''Res:'']\<rparr>)"

text \<open>
  \<open>p.catch(handler)\<close> with a handler that writes two lines and returns nothing: a
  rejection becomes a promise resolved with \<open>undefined\<close>.
\<close>

definition caught :: "string \<Rightarrow> 'a promise \<Rightarrow> logline list \<times> 'a option promise" where
  "caught msg p =
     (case p of
        Pending \<Rightarrow> ([], Pending)
      | Resolved v \<Rightarrow> ([], Resolved (Some v))
      | Rejected e \<Rightarrow> ([Line msg, Shown e], Resolved None))"

text \<open>\<open>Promise.all\<close> of two promises.\<close>

definition promise_all :: "'a promise \<Rightarrow> 'b promise \<Rightarrow> ('a \<times> 'b) promise" where
  "promise_all p q =
     (case p of
        Rejected e \<Rightarrow> Rejected e
      | Pending \<Rightarrow> (case q of Rejected e \<Rightarrow> Rejected e | Pending \<Rightarrow> Pending | Resolved b \<Rightarrow> Pending)
      | Resolved a \<Rightarrow> (case q of Rejected e \<Rightarrow> Rejected e | Pending \<Rightarrow> Pending | Resolved b \<Rightarrow> Resolved (a, b)))"

text \<open>
  What the outside answers during one cycle: the token endpoint and the list endpoint
  to the datastore read, the directory, and the token endpoint to \<open>syncUsers\<close> (asked
  only when the cached credential is stale then), with the clock at that moment.
\<close>

record world =
  db_token_reply :: "int \<times> token reply"
  users_reply :: "users_body reply"
  ldap :: directory
  sync_now :: int
  sync_token_reply :: "int \<times> token reply"

text \<open>
  The body of the \<open>setInterval\<close> callback, run to its end with no other cycle in
  between. The promise returned is \<open>Promise.all([usersDB,usersLDAP]).then(syncUsers)\<close>,
  the outcome of the cycle; the \<open>catch\<close> that follows it writes
  "Failed to synchronize LDAP and DB!" when that promise is rejected. The two reads run
  side by side and share no state; the console lines of the datastore read are put
  before those of the directory read. When the datastore read throws inside its
  callback the process ends there, and the promise of the cycle is never settled.
\<close>

definition cycle :: "int \<Rightarrow> world \<Rightarrow> client \<Rightarrow> client \<times> jsval promise" where
  "cycle now w c =
     (case getUsersDB now (db_token_reply w) (users_reply w) c of
        (c1, Uncaught x) \<Rightarrow> (c1\<lparr>log := log c1 @ [Thrown x]\<rparr>, Pending)
      | (c1, Promised dbP) \<Rightarrow>
          (case caught ''Failed to get the user list from API!'' dbP of
             (l1, usersDB) \<Rightarrow>
               (case caught ''Failed to get the user list from LDAP!'' (getUsersLDAP (ldap w)) of
                  (l2, usersLDAP) \<Rightarrow>
                    (let c2 = c1\<lparr>log := log c1 @ l1 @ l2\<rparr>
                     in case promise_all usersDB usersLDAP of
                          Pending \<Rightarrow> (c2, Pending)
                        | Rejected e \<Rightarrow>
                            (c2\<lparr>log := log c2 @ [Line ''Failed to synchronize LDAP and DB!'', Shown e]\<rparr>,
                             Rejected e)
                        | Resolved vals \<Rightarrow>
                            (case syncUsers (sync_now w) (sync_token_reply w) vals c2 of
                               (c3, Rejected e) \<Rightarrow>
                                 (c3\<lparr>log := log c3 @ [Line ''Failed to synchronize LDAP and DB!'', Shown e]\<rparr>,
                                  Rejected e)
                             | (c3, Pending) \<Rightarrow> (c3, Pending)
                             | (c3, Resolved v) \<Rightarrow> (c3, Resolved v))))))"

section \<open>The scheduler (UserSync/promises.js)\<close>

text \<open>
  \<open>setInterval(function() {...}, timer * 1000)\<close>. The callback holds no flag and tests
  nothing: each tick numbers a new cycle and runs its synchronous part, the executor of
  \<open>getUsersDB\<close> (which runs the executor of \<open>getToken\<close>) and the opening of the
  directory connection. A cycle stays in \<open>active\<close> until the last of its callbacks has
  run (\<open>Finished\<close>).
\<close>

record scheduler =
  cache :: client
  started :: nat
  active :: "nat list"

datatype timer_event = is_Tick: Tick int | Finished nat

definition tick :: "int \<Rightarrow> scheduler \<Rightarrow> scheduler" where
  "tick now s =
     s\<lparr>cache := fst (getToken_start now (cache s)),
       started := started s + 1,
       active := active s @ [started s]\<rparr>"

fun run :: "timer_event list \<Rightarrow> scheduler \<Rightarrow> scheduler" where
  "run [] s = s"
| "run (Tick now # rest) s = run rest (tick now s)"
| "run (Finished i # rest) s = run rest (s\<lparr>active := removeAll i (active s)\<rparr>)"

definition idle_client :: client where
  "idle_client = \<lparr>auth = None, token_requests = 0, in_flight = [], log = []\<rparr>"

definition idle :: scheduler where
  "idle = \<lparr>cache = idle_client, started = 0, active = []\<rparr>"

section \<open>Properties of the server\<close>

lemma map_of_delete_key: "map_of (AList.delete k tbl) i = (if i = k then None else map_of tbl i)"
  by (induction tbl) (auto simp: AList.delete_eq)

lemma sweep_loop_lookup:
  "map_of (sweep_loop now ks tbl) i =
     (case map_of tbl i of
        None \<Rightarrow> None
      | Some t \<Rightarrow> if List.member ks i \<and> expires_in t > now then None else Some t)"
proof (induction ks arbitrary: tbl)
  case Nil
  show ?case by (simp split: option.splits)
next
  case (Cons k ks)
  show ?case
    by (cases "map_of tbl k")
       (auto simp: Cons.IH map_of_delete_key split: option.splits)
qed

lemma sweep_lookup:
  "map_of (tokens (sweep now srv)) i =
     (case map_of (tokens srv) i of
        None \<Rightarrow> None
      | Some t \<Rightarrow> if expires_in t > now then None else Some t)"
proof (cases "map_of (tokens srv) i")
  case None
  then show ?thesis by (simp add: sweep_def sweep_loop_lookup)
next
  case (Some t)
  then have "i \<in> set (map fst (tokens srv))"
    by (metis map_of_eq_None_iff option.distinct(1) set_map)
  with Some show ?thesis by (simp add: sweep_def sweep_loop_lookup)
qed

text \<open>
  C10. The periodic sweep deletes exactly the stored tokens whose \<open>expires_in\<close> is
  greater than the current time, the ones that have not expired yet; a token past its
  expiry is never removed by it. Stated on the table as the handlers read it
  (\<open>tokens[i]\<close>): the keys that disappear are the keys of tokens with
  \<open>expires_in > now\<close>, and a token with \<open>expires_in \<le> now\<close> is still there, unchanged.
\<close>

theorem sweep_deletes_the_unexpired:
  "{i. map_of (tokens srv) i \<noteq> None \<and> map_of (tokens (sweep now srv)) i = None}
     = {i. \<exists>t. map_of (tokens srv) i = Some t \<and> expires_in t > now}
   \<and> (map_of (tokens srv) k = Some t \<and> expires_in t \<le> now
        \<longrightarrow> map_of (tokens (sweep now srv)) k = Some t)"
  by (auto simp: sweep_lookup split: option.splits if_splits)

theorem sweep_deletes_the_unexpired_witness:
  "map_of (tokens (sweep 1000
      \<lparr>tokens = [(''Bearer 100000'', \<lparr>expires_in = 2000, access_token = 100000, token_type = ''Bearer''\<rparr>),
                 (''Bearer 200000'', \<lparr>expires_in = 500, access_token = 200000, token_type = ''Bearer''\<rparr>)],
       users = []\<rparr>)) ''Bearer 200000''
     = Some \<lparr>expires_in = 500, access_token = 200000, token_type = ''Bearer''\<rparr>"
  using sweep_deletes_the_unexpired
    [of "\<lparr>tokens = [(''Bearer 100000'', \<lparr>expires_in = 2000, access_token = 100000, token_type = ''Bearer''\<rparr>),
                    (''Bearer 200000'', \<lparr>expires_in = 500, access_token = 200000, token_type = ''Bearer''\<rparr>)],
          users = []\<rparr>"
        1000 "''Bearer 200000''"
        "\<lparr>expires_in = 500, access_token = 200000, token_type = ''Bearer''\<rparr>"]
  by simp

lemma post_users_statusCode: "statusCode (snd (post_users now req srv res)) = statusCode res"
  by (simp add: post_users_def unauthorized_def send_def Let_def split: option.splits)

text \<open>
  C9. \<open>POST /users\<close> is meant to answer 201 with the created record, 400 when a field
  is missing and 401 for an unknown or expired token. The handler assigns the number to
  the property \<open>res.status\<close> and never sets \<open>res.statusCode\<close>, so all three answers
  leave with the status code of a fresh response, 200. Evaluated here: a request with a
  valid token and both fields, one without a surname, and one with an unknown token.
\<close>

theorem post_users_answers_200:
  "post_users 1000
      \<lparr>authorization = Some ''Bearer 123456'', body_username = JStr ''bob'', body_surname = JStr ''Jones''\<rparr>
      \<lparr>tokens = [(''Bearer 123456'', \<lparr>expires_in = 2000, access_token = 123456, token_type = ''Bearer''\<rparr>)],
       users = []\<rparr>
      fresh_response
     = (\<lparr>tokens = [(''Bearer 123456'', \<lparr>expires_in = 2000, access_token = 123456, token_type = ''Bearer''\<rparr>)],
         users = [\<lparr>username = JStr ''bob'', surname = JStr ''Jones'', last_modified = 1000\<rparr>]\<rparr>,
        \<lparr>statusCode = 200, status = StatusValue 201,
         sent = Some (SentUser \<lparr>username = JStr ''bob'', surname = JStr ''Jones'', last_modified = 1000\<rparr>)\<rparr>)
   \<and> snd (post_users 1000
      \<lparr>authorization = Some ''Bearer 123456'', body_username = JStr ''bob'', body_surname = JUndefined\<rparr>
      \<lparr>tokens = [(''Bearer 123456'', \<lparr>expires_in = 2000, access_token = 123456, token_type = ''Bearer''\<rparr>)],
       users = []\<rparr>
      fresh_response)
     = \<lparr>statusCode = 200, status = StatusValue 400, sent = Some (SentText ''Missing fields: surname '')\<rparr>
   \<and> snd (post_users 1000
      \<lparr>authorization = Some ''Bearer 999999'', body_username = JStr ''bob'', body_surname = JStr ''Jones''\<rparr>
      \<lparr>tokens = [(''Bearer 123456'', \<lparr>expires_in = 2000, access_token = 123456, token_type = ''Bearer''\<rparr>)],
       users = []\<rparr>
      fresh_response)
     = \<lparr>statusCode = 200, status = StatusValue 401, sent = Some (SentError ''Unauthorized!'')\<rparr>"
  by (simp add: post_users_def fresh_response_def send_def unauthorized_def header_key_def
        missing_fields_def Let_def)

section \<open>Properties of the directory read\<close>

lemma search_events_resolved: "snd (search_events es (u, Resolved v)) = Resolved v"
  by (induction es "(u, Resolved v :: jsobj promise)" arbitrary: u rule: search_events.induct)
     (simp_all add: resolve_def reject_def)

lemma search_events_rejected: "snd (search_events es (u, Rejected e)) = Rejected e"
  by (induction es "(u, Rejected e :: jsobj promise)" arbitrary: u rule: search_events.induct)
     (simp_all add: resolve_def reject_def)

lemma search_events_resolved_only_at_End:
  "snd (search_events es (u, Pending)) = Resolved v \<Longrightarrow>
     \<exists>before after. es = before @ End # after \<and> End \<notin> set before
        \<and> (\<forall>e. Error e \<notin> set before)
        \<and> v = fst (search_events before (u, Pending))"
proof (induction es arbitrary: u)
  case Nil
  then show ?case by simp
next
  case (Cons ev es)
  show ?case
  proof (cases ev)
    case (SearchEntry cn sn)
    with Cons.prems have "snd (search_events es (obj_set u cn sn, Pending)) = Resolved v"
      by simp
    from Cons.IH [OF this] obtain before after where
      b: "es = before @ End # after" "End \<notin> set before" "\<forall>e. Error e \<notin> set before"
         "v = fst (search_events before (obj_set u cn sn, Pending))"
      by blast
    have "ev # es = (ev # before) @ End # after" using b(1) by simp
    moreover have "End \<notin> set (ev # before)" using b(2) SearchEntry by simp
    moreover have "\<forall>e. Error e \<notin> set (ev # before)" using b(3) SearchEntry by simp
    moreover have "v = fst (search_events (ev # before) (u, Pending))"
      using b(4) SearchEntry by simp
    ultimately show ?thesis by blast
  next
    case (Error e)
    with Cons.prems show ?thesis
      by (simp add: reject_def search_events_rejected)
  next
    case End
    with Cons.prems have "v = u"
      by (simp add: resolve_def search_events_resolved)
    then have "ev # es = [] @ End # es \<and> End \<notin> set [] \<and> (\<forall>e. Error e \<notin> set [])
        \<and> v = fst (search_events [] (u, Pending))"
      using End by simp
    then show ?thesis by blast
  qed
qed

lemma search_events_error_first:
  "End \<notin> set before \<Longrightarrow>
     is_rejected (snd (search_events (before @ Error e # after) (u, Pending)))"
proof (induction before arbitrary: u)
  case Nil
  show ?case by (simp add: reject_def search_events_rejected)
next
  case (Cons ev before)
  then show ?case
    by (cases ev) (simp_all add: reject_def search_events_rejected)
qed

text \<open>
  C8. \<open>getUsersLDAP\<close> hands an identity set to its caller only at the search's
  end-of-results signal: when its promise is resolved, the bind and the search were
  accepted, the stream held an \<open>End\<close> with no \<open>Error\<close> before it, and the value is
  the object built from the entries before that \<open>End\<close>. Whenever an error signal
  arrives before end-of-results the promise is rejected, whatever entries came first
  and whatever follows: the entries gathered so far are not returned.
\<close>

theorem getUsersLDAP_all_or_nothing:
  "(getUsersLDAP d = Resolved u \<longrightarrow>
      bind_err d = None \<and> search_err d = None
      \<and> (\<exists>before after. events d = before @ End # after \<and> End \<notin> set before
            \<and> (\<forall>e. Error e \<notin> set before)
            \<and> u = fst (search_events before (empty_obj, Pending))))
   \<and> (events d = entries @ Error e # rest \<and> End \<notin> set entries
        \<longrightarrow> is_rejected (getUsersLDAP d))"
proof (intro conjI impI)
  assume r: "getUsersLDAP d = Resolved u"
  then show "bind_err d = None"
    by (simp add: getUsersLDAP_def split: option.splits)
  from r show "search_err d = None"
    by (simp add: getUsersLDAP_def split: option.splits)
  from r have "snd (search_events (events d) (empty_obj, Pending)) = Resolved u"
    by (simp add: getUsersLDAP_def split: option.splits)
  then show "\<exists>before after. events d = before @ End # after \<and> End \<notin> set before
            \<and> (\<forall>e. Error e \<notin> set before)
            \<and> u = fst (search_events before (empty_obj, Pending))"
    by (rule search_events_resolved_only_at_End)
next
  assume a: "events d = entries @ Error e # rest \<and> End \<notin> set entries"
  then have "is_rejected (snd (search_events (events d) (empty_obj, Pending)))"
    by (simp add: search_events_error_first)
  then show "is_rejected (getUsersLDAP d)"
    by (simp add: getUsersLDAP_def split: option.splits)
qed

theorem getUsersLDAP_all_or_nothing_witness:
  "is_rejected (getUsersLDAP \<lparr>bind_err = None, search_err = None,
      events = [SearchEntry ''alice'' (JStr ''Smith''), Error ''connection lost'', End]\<rparr>)
   \<and> getUsersLDAP \<lparr>bind_err = None, search_err = None,
      events = [SearchEntry ''alice'' (JStr ''Smith''), End]\<rparr>
     = Resolved \<lparr>props = [(''alice'', JStr ''Smith'')], proto = True\<rparr>
   \<and> (\<exists>before after.
         [SearchEntry ''alice'' (JStr ''Smith''), End] = before @ End # after
         \<and> End \<notin> set before
         \<and> \<lparr>props = [(''alice'', JStr ''Smith'')], proto = True\<rparr>
             = fst (search_events before (empty_obj, Pending)))"
proof -
  have "is_rejected (getUsersLDAP \<lparr>bind_err = None, search_err = None,
      events = [SearchEntry ''alice'' (JStr ''Smith''), Error ''connection lost'', End]\<rparr>)"
    using getUsersLDAP_all_or_nothing
      [of "\<lparr>bind_err = None, search_err = None,
             events = [SearchEntry ''alice'' (JStr ''Smith''), Error ''connection lost'', End]\<rparr>"
          _ "[SearchEntry ''alice'' (JStr ''Smith'')]" "''connection lost''" "[End]"]
    by simp
  moreover have r: "getUsersLDAP \<lparr>bind_err = None, search_err = None,
      events = [SearchEntry ''alice'' (JStr ''Smith''), End]\<rparr>
     = Resolved \<lparr>props = [(''alice'', JStr ''Smith'')], proto = True\<rparr>"
    by (simp add: getUsersLDAP_def resolve_def obj_set_def empty_obj_def)
  moreover have "\<exists>before after.
         [SearchEntry ''alice'' (JStr ''Smith''), End] = before @ End # after
         \<and> End \<notin> set before
         \<and> \<lparr>props = [(''alice'', JStr ''Smith'')], proto = True\<rparr>
             = fst (search_events before (empty_obj, Pending))"
    using getUsersLDAP_all_or_nothing
      [of "\<lparr>bind_err = None, search_err = None,
             events = [SearchEntry ''alice'' (JStr ''Smith''), End]\<rparr>"
          "\<lparr>props = [(''alice'', JStr ''Smith'')], proto = True\<rparr>" "[]" "[]" "[]",
        THEN conjunct1, THEN mp, OF r]
    by simp blast
  ultimately show ?thesis by simp
qed

section \<open>Properties of the credential cache\<close>

lemma getToken_start_stale:
  "stale now c \<Longrightarrow> getToken_start now c = (c\<lparr>token_requests := token_requests c + 1\<rparr>, Pending)"
  by (auto simp: stale_def getToken_start_def split: option.splits)

lemma getToken_start_fresh:
  "auth c = Some a \<Longrightarrow> time now a < of_int (expires_in a) \<Longrightarrow> getToken_start now c = (c, Resolved a)"
  by (simp add: getToken_start_def)

lemma getToken_never_rejected: "\<not> is_rejected (snd (getToken now rep c))"
  by (auto simp: getToken_def getToken_start_def getToken_reply_def
           split: option.splits promise.splits)

lemma getToken_in_flight: "in_flight (fst (getToken now rep c)) = in_flight c"
  by (auto simp: getToken_def getToken_start_def getToken_reply_def
           split: option.splits promise.splits)

lemma getToken_log: "\<exists>l. log (fst (getToken now rep c)) = log c @ l"
  by (auto simp: getToken_def getToken_start_def getToken_reply_def
           split: option.splits promise.splits)

lemma getToken_refresh_fails:
  "stale now c \<Longrightarrow> \<not> is_resolved (createToken stamp r) \<Longrightarrow>
     snd (getToken now (stamp, r) c) = Pending \<and> auth (fst (getToken now (stamp, r) c)) = auth c"
  by (cases "createToken stamp r")
     (simp_all add: getToken_def getToken_start_stale getToken_reply_def)

text \<open>
  C4, as the code has it. The age that \<open>getToken\<close> compares with \<open>expires_in\<close> is the
  absolute difference of the two clock readings in seconds, \<open>|now - created| / 1000\<close>.
  With no credential held, or with that age at or above \<open>expires_in\<close>, the call sends
  exactly one token request, and when it is answered with a token that token is stored
  in \<open>auth\<close> and is what the call resolves with; otherwise the call sends nothing,
  changes nothing and resolves with the credential held.
\<close>

theorem getToken_refresh_policy:
  "(auth c = None \<or> (\<exists>a. auth c = Some a
        \<and> \<bar>(rat_of_int now - rat_of_int (created a)) / 1000\<bar> \<ge> rat_of_int (expires_in a))
      \<longrightarrow> token_requests (fst (getToken now (stamp, r) c)) = token_requests c + 1
          \<and> (createToken stamp r = Resolved tok
               \<longrightarrow> getToken now (stamp, r) c
                     = (c\<lparr>token_requests := token_requests c + 1, auth := Some tok\<rparr>, Resolved tok)))
   \<and> (auth c = Some held
        \<and> \<bar>(rat_of_int now - rat_of_int (created held)) / 1000\<bar> < rat_of_int (expires_in held)
      \<longrightarrow> getToken now (stamp, r) c = (c, Resolved held))"
proof -
  have flip: "\<And>a. time now a = \<bar>(rat_of_int now - rat_of_int (created a)) / 1000\<bar>"
    by (simp add: time_def abs_minus_commute flip: diff_divide_distrib)
  show ?thesis
  proof (intro conjI impI)
    assume "auth c = None \<or> (\<exists>a. auth c = Some a
        \<and> \<bar>(rat_of_int now - rat_of_int (created a)) / 1000\<bar> \<ge> rat_of_int (expires_in a))"
    then have s: "stale now c"
      by (auto simp: stale_def flip)
    show "token_requests (fst (getToken now (stamp, r) c)) = token_requests c + 1"
      by (cases "createToken stamp r")
         (simp_all add: getToken_def getToken_start_stale [OF s] getToken_reply_def)
    assume "createToken stamp r = Resolved tok"
    then show "getToken now (stamp, r) c
        = (c\<lparr>token_requests := token_requests c + 1, auth := Some tok\<rparr>, Resolved tok)"
      by (simp add: getToken_def getToken_start_stale [OF s] getToken_reply_def)
  next
    assume "auth c = Some held
        \<and> \<bar>(rat_of_int now - rat_of_int (created held)) / 1000\<bar> < rat_of_int (expires_in held)"
    then show "getToken now (stamp, r) c = (c, Resolved held)"
      by (simp add: getToken_def getToken_start_def flip)
  qed
qed

theorem getToken_refresh_policy_witness:
  "getToken 1700000900000 (1700000900250, Status 200 \<lparr>expires_in = 900, access_token = 654321, token_type = ''Bearer''\<rparr>)
      \<lparr>auth = Some \<lparr>expires_in = 900, access_token = 123456, token_type = ''Bearer'', created = 1700000000000\<rparr>,
       token_requests = 1, in_flight = [], log = []\<rparr>
     = (\<lparr>auth = Some \<lparr>expires_in = 900, access_token = 654321, token_type = ''Bearer'', created = 1700000900250\<rparr>,
         token_requests = 2, in_flight = [], log = []\<rparr>,
        Resolved \<lparr>expires_in = 900, access_token = 654321, token_type = ''Bearer'', created = 1700000900250\<rparr>)
   \<and> getToken 1700000899999 (1700000900250, Status 200 \<lparr>expires_in = 900, access_token = 654321, token_type = ''Bearer''\<rparr>)
      \<lparr>auth = Some \<lparr>expires_in = 900, access_token = 123456, token_type = ''Bearer'', created = 1700000000000\<rparr>,
       token_requests = 1, in_flight = [], log = []\<rparr>
     = (\<lparr>auth = Some \<lparr>expires_in = 900, access_token = 123456, token_type = ''Bearer'', created = 1700000000000\<rparr>,
         token_requests = 1, in_flight = [], log = []\<rparr>,
        Resolved \<lparr>expires_in = 900, access_token = 123456, token_type = ''Bearer'', created = 1700000000000\<rparr>)"
proof -
  let ?held = "\<lparr>expires_in = 900, access_token = 123456, token_type = ''Bearer'', created = 1700000000000\<rparr>"
  let ?c = "\<lparr>auth = Some ?held, token_requests = 1, in_flight = [], log = []\<rparr>"
  let ?r = "Status 200 \<lparr>expires_in = 900, access_token = 654321, token_type = ''Bearer''\<rparr>"
  let ?tok = "\<lparr>expires_in = 900, access_token = 654321, token_type = ''Bearer'', created = 1700000900250\<rparr>"
  have c: "createToken 1700000900250 ?r = Resolved ?tok"
    by (simp add: createToken_def)
  have "getToken 1700000900000 (1700000900250, ?r) ?c
      = (?c\<lparr>token_requests := token_requests ?c + 1, auth := Some ?tok\<rparr>, Resolved ?tok)"
    using getToken_refresh_policy [of ?c 1700000900000 1700000900250 ?r ?tok ?held] c
    by simp
  moreover have "getToken 1700000899999 (1700000900250, ?r) ?c = (?c, Resolved ?held)"
    using getToken_refresh_policy [of ?c 1700000899999 1700000900250 ?r ?tok ?held]
    by simp
  ultimately show ?thesis by simp
qed

text \<open>
  The claim measures the age as \<open>now - issuedAt\<close>. With the clock set back by 1000
  seconds after the credential was issued, that age is negative and below the 900
  seconds the issuer reported, so the claim has the held credential returned with no
  refresh; \<open>getToken\<close> sends a token request and replaces the credential.
\<close>

theorem getToken_age_counterexample:
  "(rat_of_int 1700000000000 - rat_of_int 1700001000000) / 1000 < rat_of_int 900
   \<and> getToken 1700000000000 (1700000000250, Status 200 \<lparr>expires_in = 900, access_token = 654321, token_type = ''Bearer''\<rparr>)
      \<lparr>auth = Some \<lparr>expires_in = 900, access_token = 123456, token_type = ''Bearer'', created = 1700001000000\<rparr>,
       token_requests = 1, in_flight = [], log = []\<rparr>
     = (\<lparr>auth = Some \<lparr>expires_in = 900, access_token = 654321, token_type = ''Bearer'', created = 1700000000250\<rparr>,
         token_requests = 2, in_flight = [], log = []\<rparr>,
        Resolved \<lparr>expires_in = 900, access_token = 654321, token_type = ''Bearer'', created = 1700000000250\<rparr>)"
  by (simp add: getToken_def getToken_start_def getToken_reply_def createToken_def time_def)

lemma getToken_calls_stale:
  "list_all (\<lambda>now. stale now c) nows \<Longrightarrow>
     getToken_calls nows c
       = (c\<lparr>token_requests := token_requests c + length nows\<rparr>, replicate (length nows) Pending)"
proof (induction nows arbitrary: c)
  case Nil
  show ?case by simp
next
  case (Cons now nows)
  let ?c' = "c\<lparr>token_requests := token_requests c + 1\<rparr>"
  from Cons.prems have s: "stale now c" and rest: "list_all (\<lambda>t. stale t c) nows"
    by simp_all
  have "list_all (\<lambda>t. stale t ?c') nows"
    using rest by (simp add: stale_def)
  from Cons.IH [OF this] show ?case
    by (simp add: getToken_start_stale [OF s])
qed

text \<open>
  C5, as the code has it. Refresh is not single-flight: \<open>getToken\<close> keeps no record
  of a request under way, so each of N calls that finds the credential absent or
  expired, made before any reply has arrived, sends a token request of its own, N
  requests in all, and each call is left waiting for the reply to its own request.
\<close>

theorem getToken_calls_each_refresh:
  "list_all (\<lambda>now. stale now c) nows \<Longrightarrow>
     token_requests (fst (getToken_calls nows c)) = token_requests c + length nows
     \<and> snd (getToken_calls nows c) = replicate (length nows) Pending"
  by (simp add: getToken_calls_stale)

theorem getToken_calls_each_refresh_witness:
  "token_requests (fst (getToken_calls [1700000000000, 1700000000001, 1700000000002] idle_client)) = 3
   \<and> snd (getToken_calls [1700000000000, 1700000000001, 1700000000002] idle_client)
       = [Pending, Pending, Pending]"
proof -
  have "list_all (\<lambda>now. stale now idle_client) [1700000000000, 1700000000001, 1700000000002]"
    by (simp add: stale_def idle_client_def)
  from getToken_calls_each_refresh [OF this] show ?thesis
    by (simp add: idle_client_def numeral_3_eq_3)
qed

text \<open>
  Two calls that both find no credential: the claim allows one request to the issuing
  endpoint, the code sends two.
\<close>

theorem getToken_single_flight_counterexample:
  "stale 1700000000000 idle_client \<and> stale 1700000000001 idle_client
   \<and> token_requests (fst (getToken_calls [1700000000000, 1700000000001] idle_client)) = 2"
  by (simp add: stale_def idle_client_def getToken_start_def)

text \<open>
  C6. When the issuing endpoint cannot be reached, or answers with a status other than
  200, \<open>getToken\<close> is meant to fail. Evaluated here with no credential held: on a
  network error and on a 401 the promise of \<open>getToken\<close> stays pending for good (the
  \<open>catch\<close> callback writes a line and does not call \<open>reject\<close>).
\<close>

theorem getToken_failure_stays_pending:
  "getToken 1700000000000 (1700000000250, NoResponse) idle_client
     = (\<lparr>auth = None, token_requests = 1, in_flight = [],
         log = [Line ''Failed to get token!'', Line ''Failed to create token!'']\<rparr>, Pending)
   \<and> getToken 1700000000000
        (1700000000250, Status 401 \<lparr>expires_in = 0, access_token = 0, token_type = []\<rparr>) idle_client
     = (\<lparr>auth = None, token_requests = 1, in_flight = [],
         log = [Line ''Failed to get token!'', Line ''Failed to create token!'']\<rparr>, Pending)"
  by (simp add: getToken_def getToken_start_def getToken_reply_def createToken_def idle_client_def)

section \<open>Properties of the reconciliation cycle\<close>

lemma keys_loop_no_failure: "snd (keys_loop ks (Some db) ld tok c) = None"
  by (induction ks arbitrary: c) simp_all

lemma keys_loop_in_flight:
  "in_flight (fst (keys_loop ks (Some db) ld tok c))
     = in_flight c @
       map (\<lambda>k. \<lparr>cr_authorization = ''Bearer '' @ decimal (nat (access_token tok)),
                  cr_username = k, cr_surname = obj_get ld k\<rparr>)
           (filter (\<lambda>k. \<not> truthy (obj_get db k)) ks)"
  by (induction ks arbitrary: c) simp_all

lemma keys_loop_undefined: "keys_loop ks None ld tok c = (c, if ks = [] then None else Some TypeError)"
  by (cases ks) simp_all

lemma keys_loop_log: "\<exists>l. log (fst (keys_loop ks usersDB ld tok c)) = log c @ l"
proof (cases usersDB)
  case None
  then show ?thesis by (simp add: keys_loop_undefined)
next
  case (Some db)
  have "\<exists>l. log (fst (keys_loop ks (Some db) ld tok c)) = log c @ l"
  proof (induction ks arbitrary: c)
    case Nil
    show ?case by simp
  next
    case (Cons k ks)
    show ?case
    proof (cases "truthy (obj_get db k)")
      case True
      from Cons.IH [of "c\<lparr>log := log c @ [Line (k @ '' already exists'')]\<rparr>"] True
      show ?thesis by auto
    next
      case False
      from Cons.IH [of "c\<lparr>log := log c @ [Line (k @ '' exists only in LDAP'')],
                    in_flight := in_flight c @
                      [\<lparr>cr_authorization = ''Bearer '' @ decimal (nat (access_token tok)),
                        cr_username = k, cr_surname = obj_get ld k\<rparr>]\<rparr>"] False
      show ?thesis by auto
    qed
  qed
  with Some show ?thesis by simp
qed

lemma compare_lists_undefined:
  "fst vals = None \<or> snd vals = None \<Longrightarrow> fst (compare_lists vals tok c) = c"
  by (auto simp: compare_lists_def keys_loop_undefined split: option.splits)

lemma compare_lists_log: "\<exists>l. log (fst (compare_lists vals tok c)) = log c @ l"
  by (auto simp: compare_lists_def keys_loop_log split: option.splits)

lemma syncUsers_never_rejected: "\<not> is_rejected (snd (syncUsers now trep vals c))"
  by (auto simp: syncUsers_def split: prod.splits promise.splits option.splits)

lemma syncUsers_undefined_in_flight:
  assumes "fst vals = None \<or> snd vals = None"
  shows "in_flight (fst (syncUsers now trep vals c)) = in_flight c"
proof (cases "getToken now trep c")
  case (Pair c' p)
  have i: "in_flight c' = in_flight c"
    using getToken_in_flight [of now trep c] Pair by simp
  show ?thesis
  proof (cases p)
    case (Resolved tok)
    have "fst (compare_lists vals tok c') = c'"
      using assms by (rule compare_lists_undefined)
    then show ?thesis
      using Pair Resolved i
      by (cases "compare_lists vals tok c'")
         (auto simp: syncUsers_def split: option.splits)
  qed (use Pair i in \<open>simp_all add: syncUsers_def\<close>)
qed

lemma syncUsers_log: "\<exists>l. log (fst (syncUsers now trep vals c)) = log c @ l"
proof (cases "getToken now trep c")
  case (Pair c' p)
  obtain l where l: "log c' = log c @ l"
    using getToken_log [of now trep c] Pair by auto
  show ?thesis
  proof (cases p)
    case (Resolved tok)
    obtain l' where "log (fst (compare_lists vals tok c')) = log c' @ l'"
      using compare_lists_log by blast
    then show ?thesis
      using Pair Resolved l
      by (cases "compare_lists vals tok c'")
         (auto simp: syncUsers_def split: option.splits)
  qed (use Pair l in \<open>simp_all add: syncUsers_def\<close>)
qed

lemma getUsersDB_in_flight: "in_flight (fst (getUsersDB now trep urep c)) = in_flight c"
  using getToken_in_flight [of now trep c]
  by (cases "getToken now trep c")
     (auto simp: getUsersDB_def split: promise.splits reply.splits users_body.splits sum.splits)

text \<open>
  C2, as the code has it. With a credential at hand and both sets read, \<open>syncUsers\<close>
  resolves with the bare value \<open>true\<close> as soon as it has sent the creation requests:
  at that moment every request it sent (one for each directory key whose datastore
  value fails the truth test) is still in flight, none of their callbacks has run, and
  no record of attempts, creations or failures is produced.
\<close>

theorem syncUsers_resolves_before_creations:
  "snd (getToken now trep c) = Resolved tok \<Longrightarrow>
     snd (syncUsers now trep (Some usersDB, Some usersLDAP) c) = Resolved (JBool True)
     \<and> in_flight (fst (syncUsers now trep (Some usersDB, Some usersLDAP) c))
         = in_flight c @
           map (\<lambda>k. \<lparr>cr_authorization = ''Bearer '' @ decimal (nat (access_token tok)),
                      cr_username = k, cr_surname = obj_get usersLDAP k\<rparr>)
               (filter (\<lambda>k. \<not> truthy (obj_get usersDB k)) (obj_keys usersLDAP))"
proof -
  assume t: "snd (getToken now trep c) = Resolved tok"
  obtain c' where g: "getToken now trep c = (c', Resolved tok)"
    using t by (cases "getToken now trep c") simp
  have i: "in_flight c' = in_flight c"
    using getToken_in_flight [of now trep c] g by simp
  have k: "compare_lists (Some usersDB, Some usersLDAP) tok c'
      = keys_loop (obj_keys usersLDAP) (Some usersDB) usersLDAP tok c'"
    by (simp add: compare_lists_def)
  obtain c'' where l: "keys_loop (obj_keys usersLDAP) (Some usersDB) usersLDAP tok c' = (c'', None)"
    using keys_loop_no_failure [of "obj_keys usersLDAP" usersDB usersLDAP tok c']
    by (cases "keys_loop (obj_keys usersLDAP) (Some usersDB) usersLDAP tok c'") simp
  have "in_flight c'' = in_flight c' @
           map (\<lambda>k. \<lparr>cr_authorization = ''Bearer '' @ decimal (nat (access_token tok)),
                      cr_username = k, cr_surname = obj_get usersLDAP k\<rparr>)
               (filter (\<lambda>k. \<not> truthy (obj_get usersDB k)) (obj_keys usersLDAP))"
    using keys_loop_in_flight [of "obj_keys usersLDAP" usersDB usersLDAP tok c'] l by simp
  then show ?thesis
    using g i k l by (simp add: syncUsers_def)
qed

text \<open>
  The datastore holds alice, the directory alice and bob, a credential is at hand:
  \<open>syncUsers\<close> resolves with \<open>true\<close> while the creation request for bob is in
  flight, its callback not yet run.
\<close>

theorem syncUsers_resolves_early_counterexample:
  "syncUsers 1700000001000 (1700000001250, NoResponse)
      (Some \<lparr>props = [(''alice'', JStr ''Smith'')], proto = True\<rparr>,
       Some \<lparr>props = [(''alice'', JStr ''Smith''), (''bob'', JStr ''Jones'')], proto = True\<rparr>)
      \<lparr>auth = Some \<lparr>expires_in = 900, access_token = 123456, token_type = ''Bearer'', created = 1700000000000\<rparr>,
       token_requests = 1, in_flight = [], log = []\<rparr>
     = (\<lparr>auth = Some \<lparr>expires_in = 900, access_token = 123456, token_type = ''Bearer'', created = 1700000000000\<rparr>,
         token_requests = 1,
         in_flight = [\<lparr>cr_authorization = ''Bearer 123456'', cr_username = ''bob'', cr_surname = JStr ''Jones''\<rparr>],
         log = [Line ''alice already exists'', Line ''bob exists only in LDAP'']\<rparr>,
        Resolved (JBool True))"
proof -
  have d: "decimal 123456 = ''123456''"
    by (simp add: decimal.simps)
  show ?thesis
    by (simp add: syncUsers_def getToken_def getToken_start_def time_def compare_lists_def
          obj_keys_def obj_get_def Object_prototype_def d)
qed

theorem syncUsers_resolves_before_creations_witness:
  "snd (syncUsers 1700000001000 (1700000001250, NoResponse)
      (Some \<lparr>props = [(''alice'', JStr ''Smith'')], proto = True\<rparr>,
       Some \<lparr>props = [(''alice'', JStr ''Smith''), (''bob'', JStr ''Jones'')], proto = True\<rparr>)
      \<lparr>auth = Some \<lparr>expires_in = 900, access_token = 123456, token_type = ''Bearer'', created = 1700000000000\<rparr>,
       token_requests = 1, in_flight = [], log = []\<rparr>)
     = Resolved (JBool True)"
proof -
  let ?held = "\<lparr>expires_in = 900, access_token = 123456, token_type = ''Bearer'', created = 1700000000000\<rparr>"
  let ?c = "\<lparr>auth = Some ?held, token_requests = 1, in_flight = [], log = []\<rparr>"
  have "snd (getToken 1700000001000 (1700000001250, NoResponse) ?c) = Resolved ?held"
    by (simp add: getToken_def getToken_start_def time_def)
  from syncUsers_resolves_before_creations [OF this] show ?thesis
    by simp
qed

lemma syncUsers_not_Rejected: "syncUsers now trep vals c \<noteq> (c', Rejected e)"
  using syncUsers_never_rejected [of now trep vals c] by auto

lemma syncUsers_undefined_in_flight_eq:
  "syncUsers now trep vals c = (c', p) \<Longrightarrow> fst vals = None \<or> snd vals = None \<Longrightarrow>
     in_flight c' = in_flight c"
  using syncUsers_undefined_in_flight [of vals now trep c] by simp

lemma caught_never_rejected: "snd (caught msg p) \<noteq> Rejected e"
  by (simp add: caught_def split: promise.splits)

text \<open>The cycle, by what the two reads came to.\<close>

lemma cycle_uncaught:
  assumes "getUsersDB now (db_token_reply w) (users_reply w) c = (c1, Uncaught x)"
  shows "cycle now w c = (c1\<lparr>log := log c1 @ [Thrown x]\<rparr>, Pending)"
  using assms by (simp add: cycle_def)

lemma cycle_unfold:
  assumes "getUsersDB now (db_token_reply w) (users_reply w) c = (c1, Promised dbP)"
  shows "cycle now w c =
     (let l1 = fst (caught ''Failed to get the user list from API!'' dbP);
          l2 = fst (caught ''Failed to get the user list from LDAP!'' (getUsersLDAP (ldap w)));
          c2 = c1\<lparr>log := log c1 @ l1 @ l2\<rparr>
      in case promise_all (snd (caught ''Failed to get the user list from API!'' dbP))
                (snd (caught ''Failed to get the user list from LDAP!'' (getUsersLDAP (ldap w)))) of
           Pending \<Rightarrow> (c2, Pending)
         | Rejected e \<Rightarrow>
             (c2\<lparr>log := log c2 @ [Line ''Failed to synchronize LDAP and DB!'', Shown e]\<rparr>, Rejected e)
         | Resolved vals \<Rightarrow> syncUsers (sync_now w) (sync_token_reply w) vals c2)"
proof -
  have s: "\<And>vals c2. (case syncUsers (sync_now w) (sync_token_reply w) vals c2 of
              (c3, Rejected e) \<Rightarrow>
                 (c3\<lparr>log := log c3 @ [Line ''Failed to synchronize LDAP and DB!'', Shown e]\<rparr>, Rejected e)
            | (c3, Pending) \<Rightarrow> (c3, Pending)
            | (c3, Resolved v) \<Rightarrow> (c3, Resolved v))
          = syncUsers (sync_now w) (sync_token_reply w) vals c2"
    using syncUsers_not_Rejected
    by (auto split: prod.splits promise.splits)
  show ?thesis
    using assms by (auto simp: cycle_def Let_def s split: prod.splits promise.splits)
qed

text \<open>
  The promise of a cycle is never rejected: the \<open>catch\<close> that ends the callback of
  \<open>setInterval\<close> never runs.
\<close>

lemma cycle_never_rejected: "\<not> is_rejected (snd (cycle now w c))"
proof (cases "getUsersDB now (db_token_reply w) (users_reply w) c")
  case (Pair c1 r)
  show ?thesis
  proof (cases r)
    case (Uncaught x)
    with Pair show ?thesis by (simp add: cycle_uncaught)
  next
    case (Promised dbP)
    note u = cycle_unfold [OF Pair [unfolded Promised]]
    show ?thesis
      by (cases dbP; cases "getUsersLDAP (ldap w)")
         (simp_all add: u caught_def promise_all_def syncUsers_never_rejected)
  qed
qed

text \<open>
  A cycle in which one of the two reads does not deliver its set sends no creation
  request.
\<close>

lemma cycle_in_flight_on_failure:
  assumes "\<not> delivered (snd (getUsersDB now (db_token_reply w) (users_reply w) c))
           \<or> \<not> is_resolved (getUsersLDAP (ldap w))"
  shows "in_flight (fst (cycle now w c)) = in_flight c"
proof (cases "getUsersDB now (db_token_reply w) (users_reply w) c")
  case (Pair c1 r)
  have i: "in_flight c1 = in_flight c"
    using getUsersDB_in_flight [of now "db_token_reply w" "users_reply w" c] Pair by simp
  show ?thesis
  proof (cases r)
    case (Uncaught x)
    with Pair i show ?thesis by (simp add: cycle_uncaught)
  next
    case (Promised dbP)
    note u = cycle_unfold [OF Pair [unfolded Promised]]
    from assms Pair Promised
    have "\<not> is_resolved dbP \<or> \<not> is_resolved (getUsersLDAP (ldap w))"
      by (cases dbP) simp_all
    then show ?thesis
      by (cases dbP; cases "getUsersLDAP (ldap w)")
         (simp_all add: u caught_def promise_all_def syncUsers_undefined_in_flight i)
  qed
qed

text \<open>How \<open>server.js\<close> refuses \<open>GET /users\<close>: the error object, sent with status 200.\<close>

lemma get_users_refusal:
  "map_of (tokens srv) (header_key (authorization req)) = None \<Longrightarrow>
     snd (get_users now req srv fresh_response)
       = \<lparr>statusCode = 200, status = StatusValue 401, sent = Some (SentError ''Unauthorized!'')\<rparr>"
  by (simp add: get_users_def unauthorized_def send_def fresh_response_def)

text \<open>
  C3. A cycle in which a read fails is meant to send no creation request and to end in
  that failure. It sends none, but the failure never is the outcome of the cycle: each
  reader's rejection is caught by the handler attached to that reader, which hands
  \<open>undefined\<close> on to \<open>Promise.all\<close>, so the cycle's own \<open>catch\<close> ("Failed to
  synchronize LDAP and DB!") never runs. Evaluated here, each time with a token issued
  and no creation request sent. The directory refuses the bind while the datastore
  lists alice: \<open>Object.keys(undefined)\<close> throws in \<open>syncUsers\<close>, whose \<open>catch\<close>
  writes "Failed to get token!", and the cycle's promise is never settled. The
  datastore answers 500 and the directory is empty: the cycle's promise is resolved
  with \<open>true\<close>. The datastore answers as \<open>server.js\<close> refuses a token, status 200
  with an object: the loop over it throws inside the callback, and the process ends.
\<close>

theorem cycle_swallows_reader_failure:
  "cycle 1700000000000
      \<lparr>db_token_reply = (1700000000250, Status 200 \<lparr>expires_in = 900, access_token = 123456, token_type = ''Bearer''\<rparr>),
       users_reply = Status 200 (UserArray [Listed ''alice'' (JStr ''Smith'')]),
       ldap = \<lparr>bind_err = Some ''InvalidCredentialsError'', search_err = None, events = []\<rparr>,
       sync_now = 1700000000500,
       sync_token_reply = (1700000000750, NoResponse)\<rparr>
      idle_client
     = (\<lparr>auth = Some \<lparr>expires_in = 900, access_token = 123456, token_type = ''Bearer'', created = 1700000000250\<rparr>,
         token_requests = 1,
         in_flight = [],
         log = [Line ''Failed to get the user list from LDAP!'',
                Shown (BindError ''InvalidCredentialsError''),
                Line ''Failed to get token!'']\<rparr>,
        Pending)
   \<and> cycle 1700000000000
      \<lparr>db_token_reply = (1700000000250, Status 200 \<lparr>expires_in = 900, access_token = 123456, token_type = ''Bearer''\<rparr>),
       users_reply = Status 500 NotIterable,
       ldap = \<lparr>bind_err = None, search_err = None, events = [End]\<rparr>,
       sync_now = 1700000000500,
       sync_token_reply = (1700000000750, NoResponse)\<rparr>
      idle_client
     = (\<lparr>auth = Some \<lparr>expires_in = 900, access_token = 123456, token_type = ''Bearer'', created = 1700000000250\<rparr>,
         token_requests = 1,
         in_flight = [],
         log = [Line ''Failed to get users from the DB!'',
                Line ''Failed to get the user list from API!'',
                Shown (BadReply 500)]\<rparr>,
        Resolved (JBool True))
   \<and> cycle 1700000000000
      \<lparr>db_token_reply = (1700000000250, Status 200 \<lparr>expires_in = 900, access_token = 123456, token_type = ''Bearer''\<rparr>),
       users_reply = Status 200 NotIterable,
       ldap = \<lparr>bind_err = None, search_err = None,
               events = [SearchEntry ''bob'' (JStr ''Jones''), End]\<rparr>,
       sync_now = 1700000000500,
       sync_token_reply = (1700000000750, NoResponse)\<rparr>
      idle_client
     = (\<lparr>auth = Some \<lparr>expires_in = 900, access_token = 123456, token_type = ''Bearer'', created = 1700000000250\<rparr>,
         token_requests = 1,
         in_flight = [],
         log = [Thrown TypeError]\<rparr>,
        Pending)"
  by (simp add: cycle_def getUsersDB_def getUsersLDAP_def getToken_def getToken_start_def
        getToken_reply_def createToken_def idle_client_def caught_def promise_all_def
        syncUsers_def compare_lists_def time_def resolve_def empty_obj_def obj_keys_def
        obj_set_def)

text \<open>
  C1. The keys sent for creation are meant to be the directory's keys that the
  datastore does not hold. \<open>syncUsers\<close> tests \<open>!usersDB[objectKey]\<close>, the truth of the
  stored surname, not the presence of the key. Evaluated here: a cycle in which both
  sides hold alice, the datastore with the empty surname, sends a creation request for
  alice (and writes "alice exists only in LDAP"); and a cycle in which only the
  directory holds the key \<open>toString\<close> sends none, the datastore object inheriting a
  member of that name.
\<close>

theorem cycle_creates_key_held_with_empty_surname:
  "cycle 1700000000000
      \<lparr>db_token_reply = (1700000000250, Status 200 \<lparr>expires_in = 900, access_token = 123456, token_type = ''Bearer''\<rparr>),
       users_reply = Status 200 (UserArray [Listed ''alice'' (JStr '''')]),
       ldap = \<lparr>bind_err = None, search_err = None,
               events = [SearchEntry ''alice'' (JStr ''Smith''), End]\<rparr>,
       sync_now = 1700000000500,
       sync_token_reply = (1700000000750, NoResponse)\<rparr>
      idle_client
     = (\<lparr>auth = Some \<lparr>expires_in = 900, access_token = 123456, token_type = ''Bearer'', created = 1700000000250\<rparr>,
         token_requests = 1,
         in_flight = [\<lparr>cr_authorization = ''Bearer 123456'', cr_username = ''alice'', cr_surname = JStr ''Smith''\<rparr>],
         log = [Line ''alice exists only in LDAP'']\<rparr>,
        Resolved (JBool True))
   \<and> cycle 1700000000000
      \<lparr>db_token_reply = (1700000000250, Status 200 \<lparr>expires_in = 900, access_token = 123456, token_type = ''Bearer''\<rparr>),
       users_reply = Status 200 (UserArray []),
       ldap = \<lparr>bind_err = None, search_err = None,
               events = [SearchEntry ''toString'' (JStr ''Smith''), End]\<rparr>,
       sync_now = 1700000000500,
       sync_token_reply = (1700000000750, NoResponse)\<rparr>
      idle_client
     = (\<lparr>auth = Some \<lparr>expires_in = 900, access_token = 123456, token_type = ''Bearer'', created = 1700000000250\<rparr>,
         token_requests = 1,
         in_flight = [],
         log = [Line ''toString already exists'']\<rparr>,
        Resolved (JBool True))"
proof -
  have d: "decimal 123456 = ''123456''"
    by (simp add: decimal.simps)
  show ?thesis
    by (simp add: cycle_def getUsersDB_def getUsersLDAP_def getToken_def getToken_start_def
          getToken_reply_def createToken_def idle_client_def caught_def promise_all_def
          syncUsers_def compare_lists_def time_def resolve_def empty_obj_def obj_keys_def
          obj_set_def obj_get_def Object_prototype_def d)
qed

section \<open>Properties of the scheduler\<close>

lemma run_started: "started (run evs s) = started s + length (filter is_Tick evs)"
proof (induction evs arbitrary: s)
  case Nil
  show ?case by simp
next
  case (Cons ev evs)
  show ?case
    by (cases ev) (simp_all add: Cons.IH tick_def)
qed

text \<open>
  C7, as the code has it. The timer's callback starts a cycle at every tick, whether
  or not earlier cycles are still active: over any sequence of ticks and completions the
  number of cycles started is the number of ticks (none is skipped), and a tick adds
  its cycle to the ones that are active, all of which stay active beside it.
\<close>

theorem run_starts_a_cycle_at_every_tick:
  "started (run evs s) = started s + length (filter is_Tick evs)
   \<and> active (tick now s) = active s @ [started s]"
  by (simp add: run_started tick_def)

text \<open>
  Two ticks, the first cycle not finished at the second: both cycles are active.
\<close>

theorem run_overlap_counterexample:
  "active (run [Tick 1700000000000, Tick 1700000030000] idle) = [0, 1]"
  by (simp add: tick_def idle_def)

end
